theory Spec2Isabelle
  imports Main
begin

section \<open>JavaScript strings\<close>

text \<open>
  A JavaScript string is modelled as a \<open>string\<close>: a list of 8-bit characters, read as the
  code units U+0000 .. U+00FF. The string operations below are the standard ones restricted
  to that range.
\<close>

definition code :: "char \<Rightarrow> nat" where
  "code c = of_char c"

text \<open>\<open>String.prototype.toLowerCase\<close>: A-Z and the capital letters of Latin-1
  (U+00C0 .. U+00DE without the multiplication sign U+00D7) move up by 32.\<close>

definition toLowerCase_char :: "char \<Rightarrow> char" where
  "toLowerCase_char c =
     (if (65 \<le> code c \<and> code c \<le> 90) \<or> (192 \<le> code c \<and> code c \<le> 222 \<and> code c \<noteq> 215)
      then char_of (code c + 32) else c)"

definition toLowerCase :: "string \<Rightarrow> string" where
  "toLowerCase s = map toLowerCase_char s"

text \<open>The white space of \<open>String.prototype.trim\<close> and of the regular-expression class
  \<open>\s\<close>: TAB, LF, VT, FF, CR, SPACE and NBSP.\<close>

definition isWhiteSpace :: "char \<Rightarrow> bool" where
  "isWhiteSpace c = (code c \<in> {9, 10, 11, 12, 13, 32, 160})"

definition trim :: "string \<Rightarrow> string" where
  "trim s = rev (dropWhile isWhiteSpace (rev (dropWhile isWhiteSpace s)))"

section \<open>GitHubManager.sanitizeRepoName\<close>

text \<open>The character classes \<open>[a-z0-9]\<close> and \<open>[a-z0-9-]\<close>.\<close>

definition is_lower_alnum :: "char \<Rightarrow> bool" where
  "is_lower_alnum c = ((97 \<le> code c \<and> code c \<le> 122) \<or> (48 \<le> code c \<and> code c \<le> 57))"

definition is_name_char :: "char \<Rightarrow> bool" where
  "is_name_char c = (is_lower_alnum c \<or> c = CHR ''-'')"

text \<open>\<open>.replace(/[^a-z0-9-]/g, '-')\<close>\<close>

definition replace_invalid :: "string \<Rightarrow> string" where
  "replace_invalid s = map (\<lambda>c. if is_name_char c then c else CHR ''-'') s"

text \<open>\<open>.replace(/-+/g, '-')\<close>: every maximal run of dashes becomes one dash.\<close>

fun collapse_dashes :: "string \<Rightarrow> string" where
  "collapse_dashes (x # y # s) =
     (if x = CHR ''-'' \<and> y = CHR ''-'' then collapse_dashes (y # s)
      else x # collapse_dashes (y # s))"
| "collapse_dashes s = s"

text \<open>\<open>.replace(/^-|-$/g, '')\<close>: one dash at the start and one dash at the end are
  removed (the pattern has no \<open>+\<close>, and the two matches never overlap).\<close>

definition strip_leading_dash :: "string \<Rightarrow> string" where
  "strip_leading_dash s = (case s of [] \<Rightarrow> [] | c # r \<Rightarrow> if c = CHR ''-'' then r else s)"

definition strip_trailing_dash :: "string \<Rightarrow> string" where
  "strip_trailing_dash s = (if s \<noteq> [] \<and> last s = CHR ''-'' then butlast s else s)"

definition sanitizeRepoName :: "string \<Rightarrow> string" where
  "sanitizeRepoName taskName =
     strip_trailing_dash (strip_leading_dash
       (collapse_dashes (replace_invalid (toLowerCase taskName))))"

text \<open>The pattern \<open>^[a-z0-9]([a-z0-9-]*[a-z0-9])?$\<close> of the specification.\<close>

definition matches_repo_pattern :: "string \<Rightarrow> bool" where
  "matches_repo_pattern s =
     (case s of
        [] \<Rightarrow> False
      | c # r \<Rightarrow> is_lower_alnum c \<and>
          (if r = [] then True else list_all is_name_char (butlast r) \<and> is_lower_alnum (last r)))"

text \<open>No two dashes in a row.\<close>

fun no_double_dash :: "string \<Rightarrow> bool" where
  "no_double_dash (x # y # s) = ((x \<noteq> CHR ''-'' \<or> y \<noteq> CHR ''-'') \<and> no_double_dash (y # s))"
| "no_double_dash s = True"

text \<open>Neither the first nor the last character is a dash.\<close>

definition dash_trimmed :: "string \<Rightarrow> bool" where
  "dash_trimmed s = (s = [] \<or> (hd s \<noteq> CHR ''-'' \<and> last s \<noteq> CHR ''-''))"

section \<open>Errors, numbers and effects\<close>

text \<open>
  A thrown JavaScript value: an \<open>Error\<close> object with its message and, for the errors of the
  hosting platform's client, the HTTP status; or the \<open>TypeError\<close> the runtime raises when a
  property of \<open>undefined\<close> is read.
\<close>

datatype js_error = Error string "int option" | TypeError string

fun message :: "js_error \<Rightarrow> string" where
  "message (Error m st) = m"
| "message (TypeError m) = m"

fun status :: "js_error \<Rightarrow> int option" where
  "status (Error m st) = st"
| "status (TypeError m) = None"

text \<open>Decimal rendering of an integer, as a template literal renders it.\<close>

fun show_nat :: "nat \<Rightarrow> string" where
  "show_nat n = (if n < 10 then [char_of (48 + n)] else show_nat (n div 10) @ [char_of (48 + n mod 10)])"

declare show_nat.simps [simp del]

definition show_int :: "int \<Rightarrow> string" where
  "show_int i = (if i < 0 then CHR ''-'' # show_nat (nat (- i)) else show_nat (nat i))"

text \<open>
  The observable effects of an asynchronous function, in the order they happen. \<open>Sleep ms\<close>
  is \<open>await new Promise(resolve => setTimeout(resolve, ms))\<close>; the other events are calls
  to an external collaborator. Calls to the logger are left out: it only prints and appends
  to a file, and catches its own write failure.
\<close>

datatype event =
    Invoke nat
  | Sleep int
  | GetPages nat
  | CreatePagesSite
  | Clone
  | Push nat
  | ListCommits

fun sleep_ms :: "event \<Rightarrow> int" where
  "sleep_ms (Sleep ms) = ms"
| "sleep_ms e = 0"

definition total_sleep :: "event list \<Rightarrow> int" where
  "total_sleep tr = sum_list (map sleep_ms tr)"

fun is_invoke :: "event \<Rightarrow> bool" where
  "is_invoke (Invoke a) = True"
| "is_invoke e = False"

definition invocations :: "event list \<Rightarrow> event list" where
  "invocations tr = filter is_invoke tr"

fun is_poll :: "event \<Rightarrow> bool" where
  "is_poll (GetPages i) = True"
| "is_poll e = False"

definition polls :: "event list \<Rightarrow> event list" where
  "polls tr = filter is_poll tr"

section \<open>retryRequest\<close>

text \<open>
  \<open>requestFn a\<close> is what the \<open>a\<close>-th call of the operation does: it throws (\<open>Inl\<close>) or
  returns (\<open>Inr\<close>). The loop calls it once per attempt, so the call number is the attempt
  number. \<open>maxRetries\<close> is a count; a negative JavaScript number behaves as \<open>0\<close> (the loop
  body never runs). \<open>initialDelay\<close> is in seconds, each \<open>Sleep\<close> in milliseconds.
\<close>

definition retry_failed :: "nat \<Rightarrow> js_error option \<Rightarrow> js_error" where
  "retry_failed maxRetries lastError =
     (case lastError of
        None \<Rightarrow> TypeError ''Cannot read properties of undefined (reading 'message')''
      | Some e \<Rightarrow> Error (''Failed after '' @ show_nat maxRetries @ '' attempts: '' @ message e) None)"

function retryLoop ::
  "(nat \<Rightarrow> js_error + 'a) \<Rightarrow> nat \<Rightarrow> int \<Rightarrow> nat \<Rightarrow> js_error option \<Rightarrow> event list
    \<Rightarrow> (js_error + 'a) \<times> event list" where
  "retryLoop requestFn maxRetries initialDelay attempt lastError tr =
     (if attempt \<le> maxRetries then
        (case requestFn attempt of
           Inr result \<Rightarrow> (Inr result, tr @ [Invoke attempt])
         | Inl error \<Rightarrow>
             if attempt = maxRetries
             then (Inl (retry_failed maxRetries (Some error)), tr @ [Invoke attempt])
             else retryLoop requestFn maxRetries initialDelay (attempt + 1) (Some error)
                    (tr @ [Invoke attempt, Sleep (initialDelay * 2 ^ (attempt - 1) * 1000)]))
      else (Inl (retry_failed maxRetries lastError), tr))"
  by pat_completeness auto
termination
  by (relation "measure (\<lambda>(f, maxRetries, d, attempt, e, tr). maxRetries + 1 - attempt)") auto

declare retryLoop.simps [simp del]

definition retryRequest ::
  "(nat \<Rightarrow> js_error + 'a) \<Rightarrow> nat \<Rightarrow> int \<Rightarrow> (js_error + 'a) \<times> event list" where
  "retryRequest requestFn maxRetries initialDelay =
     retryLoop requestFn maxRetries initialDelay 1 None []"

text \<open>The trace of \<open>k\<close> failed attempts from attempt \<open>a\<close> on, each followed by its wait.\<close>

definition failed_attempts :: "int \<Rightarrow> nat \<Rightarrow> nat \<Rightarrow> event list" where
  "failed_attempts initialDelay a k =
     concat (map (\<lambda>i. [Invoke i, Sleep (initialDelay * 2 ^ (i - 1) * 1000)]) [a..<a + k])"

section \<open>verifySecret\<close>

text \<open>The two environment variables read by \<open>verifySecret\<close>; \<open>None\<close> is an unset variable.\<close>

record environment =
  USER_SECRET :: "string option"
  NODE_ENV :: "string option"

text \<open>A property of the request body: absent, \<open>null\<close>, or a value.\<close>

datatype 'a field = Absent | Null | Val 'a

definition verifySecret :: "environment \<Rightarrow> string field \<Rightarrow> bool" where
  "verifySecret env providedSecret =
     (if USER_SECRET env = None \<or> USER_SECRET env = Some []
      then (if NODE_ENV env = Some ''development'' then True else False)
      else (case providedSecret of
              Val s \<Rightarrow> Some s = USER_SECRET env
            | _ \<Rightarrow> False))"

section \<open>GitHubManager: waiting for the hosting build\<close>

text \<open>
  \<open>getPages i\<close> is what the \<open>i\<close>-th status request does (\<open>i\<close> counted from 0): it throws,
  or it returns the \<open>status\<close> of the site. Whatever the body of the \<open>try\<close> throws is caught
  by the \<open>catch\<close> of the same iteration. \<open>maxAttempts\<close> is a count; a negative JavaScript
  number behaves as \<open>0\<close> (the loop body never runs). The commit hash that the callers pass
  is only logged.
\<close>

function waitLoop ::
  "(nat \<Rightarrow> js_error + string) \<Rightarrow> nat \<Rightarrow> nat \<Rightarrow> event list \<Rightarrow> (js_error + bool) \<times> event list" where
  "waitLoop getPages maxAttempts i tr =
     (if i < maxAttempts then
        (case getPages i of
           Inr pages_status \<Rightarrow>
             if pages_status = ''built''
             then (Inr True, tr @ [GetPages i, Sleep 10000])
             else waitLoop getPages maxAttempts (i + 1) (tr @ [GetPages i, Sleep 5000])
         | Inl error \<Rightarrow> waitLoop getPages maxAttempts (i + 1) (tr @ [GetPages i, Sleep 5000]))
      else (Inr False, tr @ [Sleep 15000]))"
  by pat_completeness auto
termination
  by (relation "measure (\<lambda>(g, maxAttempts, i, tr). maxAttempts - i)") auto

declare waitLoop.simps [simp del]

definition waitForPagesDeployment ::
  "(nat \<Rightarrow> js_error + string) \<Rightarrow> nat \<Rightarrow> (js_error + bool) \<times> event list" where
  "waitForPagesDeployment getPages maxAttempts = waitLoop getPages maxAttempts 0 []"

text \<open>The first status request, among those numbered \<open>i .. < n\<close>, that reports "built".\<close>

definition first_built :: "(nat \<Rightarrow> js_error + string) \<Rightarrow> nat \<Rightarrow> nat \<Rightarrow> nat option" where
  "first_built getPages i n = List.find (\<lambda>j. getPages j = Inr ''built'') [i..<n]"

definition unbuilt_polls :: "nat \<Rightarrow> nat \<Rightarrow> event list" where
  "unbuilt_polls i j = concat (map (\<lambda>k. [GetPages k, Sleep 5000]) [i..<j])"

section \<open>GitHubManager.enableGitHubPages\<close>

text \<open>
  \<open>createPagesSite\<close> is what the activation request does. The \<open>catch\<close> logs in both of its
  branches (status 409: already enabled; anything else: failure) and throws in neither.
\<close>

definition enableGitHubPages ::
  "(js_error + unit) \<Rightarrow> (nat \<Rightarrow> js_error + string) \<Rightarrow> (js_error + unit) \<times> event list" where
  "enableGitHubPages createPagesSite getPages =
     (let catch = (\<lambda>error tr. if status error = Some 409 then (Inr (), tr) else (Inr (), tr)) in
      case createPagesSite of
        Inl error \<Rightarrow> catch error [Sleep 2000, CreatePagesSite]
      | Inr u \<Rightarrow>
          (case waitForPagesDeployment getPages 15 of
             (Inl error, tr) \<Rightarrow> catch error ([Sleep 2000, CreatePagesSite] @ tr)
           | (Inr b, tr) \<Rightarrow> (Inr (), [Sleep 2000, CreatePagesSite] @ tr)))"

section \<open>GitHubManager.updateRepo\<close>

text \<open>
  The tracked files of one repository: a map from the path below the repository root, a
  list of segments, to a regular file with its content or a symbolic link with its text.
  \<open>remote_files\<close> is the tree at the head of the branch that a clone checks out. Names are
  compared as strings, as on a case-sensitive file system.
\<close>

datatype node = Regular string | Symlink string

type_synonym path = "string list"

type_synonym tree = "path \<rightharpoonup> node"

text \<open>\<open>filename.split('/')\<close>\<close>

fun split_path :: "string \<Rightarrow> string list" where
  "split_path [] = [[]]"
| "split_path (c # s) =
     (if c = CHR ''/'' then [] # split_path s
      else (case split_path s of
              [] \<Rightarrow> [[c]]
            | seg # rest \<Rightarrow> (c # seg) # rest))"

text \<open>
  The normalisation of \<open>path.join\<close> (POSIX rules), on an absolute directory given by its
  segments: empty segments and \<open>.\<close> are dropped, \<open>..\<close> removes the last segment and stays at
  the root.
\<close>

fun normalize_from :: "path \<Rightarrow> string list \<Rightarrow> path" where
  "normalize_from dir [] = dir"
| "normalize_from dir (s # rest) =
     (if s = [] \<or> s = ''.'' then normalize_from dir rest
      else if s = ''..'' then normalize_from (butlast dir) rest
      else normalize_from (dir @ [s]) rest)"

definition path_join :: "path \<Rightarrow> string \<Rightarrow> path" where
  "path_join dir name = normalize_from dir (split_path name)"

text \<open>The part of an absolute path below the working copy at \<open>base\<close>, if it lies below it.\<close>

definition inside :: "path \<Rightarrow> path \<Rightarrow> path option" where
  "inside base p =
     (if length base < length p \<and> take (length base) p = base
      then Some (drop (length base) p) else None)"

text \<open>The text of the symbolic link at an absolute path, if the working copy has one there.\<close>

definition link_at :: "path \<Rightarrow> tree \<Rightarrow> path \<Rightarrow> string option" where
  "link_at base t p =
     (case inside base p of
        None \<Rightarrow> None
      | Some rel \<Rightarrow> (case t rel of Some (Symlink text) \<Rightarrow> Some text | _ \<Rightarrow> None))"

text \<open>
  How the operating system resolves a path when \<open>fs.writeFile\<close> opens it: segment by
  segment from the directory \<open>cur\<close>, following each symbolic link of the working copy, the
  last segment included. The text of a link is resolved from the directory that holds the
  link, or from the root when it starts with a slash. \<open>limit\<close> is the number of links the
  platform follows in one resolution. The file system outside the working copy is taken
  to hold no links.
\<close>

function follow_links :: "nat \<Rightarrow> path \<Rightarrow> tree \<Rightarrow> path \<Rightarrow> string list \<Rightarrow> js_error + path" where
  "follow_links limit base t cur [] = Inr cur"
| "follow_links limit base t cur (s # rest) =
     (if s = [] \<or> s = ''.'' then follow_links limit base t cur rest
      else if s = ''..'' then follow_links limit base t (butlast cur) rest
      else (case link_at base t (cur @ [s]) of
              None \<Rightarrow> follow_links limit base t (cur @ [s]) rest
            | Some text \<Rightarrow>
                if limit = 0
                then Inl (Error ''ELOOP: too many symbolic links encountered, open'' None)
                else follow_links (limit - 1) base t
                       (if take 1 text = ''/'' then [] else cur) (split_path text @ rest)))"
  by pat_completeness auto
termination
  by (relation "measures [\<lambda>(limit, base, t, cur, rest). limit,
                          \<lambda>(limit, base, t, cur, rest). length rest]") auto

text \<open>
  Where the write of one entry of the file set lands: on a path of the tracked tree, in the
  \<open>.git\<close> directory of the working copy, or outside the working copy. A name that ends in a
  slash, and a name that resolves to the root of the working copy, cannot be opened for
  writing.
\<close>

datatype target = Tracked path | GitDir | Outside

definition resolve_write :: "nat \<Rightarrow> path \<Rightarrow> tree \<Rightarrow> string \<Rightarrow> js_error + target" where
  "resolve_write limit base t filename =
     (if filename \<noteq> [] \<and> last filename = CHR ''/''
      then Inl (Error ''EISDIR: illegal operation on a directory, open'' None)
      else (case follow_links limit base t [] (path_join base filename) of
              Inl e \<Rightarrow> Inl e
            | Inr p \<Rightarrow>
                if p = base then Inl (Error ''EISDIR: illegal operation on a directory, open'' None)
                else (case inside base p of
                        None \<Rightarrow> Inr Outside
                      | Some rel \<Rightarrow>
                          if take 1 rel = [''.git''] then Inr GitDir else Inr (Tracked rel))))"

text \<open>
  The working copy under \<open>generated-repos\<close>: its tracked files, and whether a write has
  landed anywhere else (in its \<open>.git\<close> directory or outside it).
\<close>

record working_copy =
  wc_files :: tree
  wrote_elsewhere :: bool

record git_world =
  remote_files :: tree
  local_copy :: "working_copy option"

fun write_to :: "target \<Rightarrow> string \<Rightarrow> working_copy \<Rightarrow> working_copy" where
  "write_to (Tracked q) content wc = wc\<lparr>wc_files := (wc_files wc)(q \<mapsto> Regular content)\<rparr>"
| "write_to GitDir content wc = wc\<lparr>wrote_elsewhere := True\<rparr>"
| "write_to Outside content wc = wc\<lparr>wrote_elsewhere := True\<rparr>"

text \<open>
  What the collaborators of one \<open>updateRepo\<close> call do. For \<open>git_clone\<close>, \<open>fs_writeFile\<close> and
  \<open>git_push\<close>, \<open>None\<close> is success and \<open>Some e\<close> the error thrown; \<open>fs_writeFile name\<close> is the
  failure of the write of that entry at the place it resolves to (a missing directory, a
  directory or a file in the way, permissions), \<open>git_push a\<close> the \<open>a\<close>-th push.
  \<open>git_add_commit head files elsewhere\<close> stands for the local git steps (configuration,
  status, add, commit): from the tree that was cloned, the tracked files of the working
  copy and whether a write landed elsewhere, the error thrown or the tree that is committed.
  \<open>symlink_limit\<close> is the platform's limit of links followed (40 on Linux).
\<close>

record update_env =
  git_clone :: "js_error option"
  symlink_limit :: nat
  fs_writeFile :: "string \<Rightarrow> js_error option"
  git_add_commit :: "tree \<Rightarrow> tree \<Rightarrow> bool \<Rightarrow> js_error + tree"
  git_push :: "nat \<Rightarrow> js_error option"
  listCommits :: "js_error + string list"
  pages_status :: "nat \<Rightarrow> js_error + string"

text \<open>\<open>reposDir\<close> is the absolute directory \<open>generated-repos\<close>, as segments.\<close>

record github_config =
  token :: string
  username :: string
  reposDir :: path

record deploy_result =
  repo_url :: string
  commit_sha :: string
  pages_url :: string

text \<open>
  The loop over \<open>Object.entries(files)\<close>: each entry is written to
  \<open>path.join(localRepoPath, filename)\<close>; the loop stops at the first write that throws.
\<close>

fun writeFiles ::
  "nat \<Rightarrow> path \<Rightarrow> (string \<Rightarrow> js_error option) \<Rightarrow> (string \<times> string) list \<Rightarrow> working_copy
    \<Rightarrow> js_error option \<times> working_copy" where
  "writeFiles limit localRepoPath wr [] wc = (None, wc)"
| "writeFiles limit localRepoPath wr ((filename, content) # files) wc =
     (case resolve_write limit localRepoPath (wc_files wc) filename of
        Inl e \<Rightarrow> (Some e, wc)
      | Inr tg \<Rightarrow>
          (case wr filename of
             Some e \<Rightarrow> (Some e, wc)
           | None \<Rightarrow> writeFiles limit localRepoPath wr files (write_to tg content wc)))"

text \<open>The push loop; its result is \<open>pushSuccess\<close>.\<close>

function pushLoop ::
  "(nat \<Rightarrow> js_error option) \<Rightarrow> nat \<Rightarrow> nat \<Rightarrow> event list \<Rightarrow> (js_error + bool) \<times> event list" where
  "pushLoop push maxPushAttempts attempt tr =
     (if attempt \<le> maxPushAttempts then
        (case push attempt of
           None \<Rightarrow> (Inr True, tr @ [Push attempt])
         | Some pushError \<Rightarrow>
             if attempt = maxPushAttempts then (Inl pushError, tr @ [Push attempt])
             else pushLoop push maxPushAttempts (attempt + 1)
                    (tr @ [Push attempt, Sleep (2000 * int attempt)]))
      else (Inr False, tr))"
  by pat_completeness auto
termination
  by (relation "measure (\<lambda>(p, maxPushAttempts, attempt, tr). maxPushAttempts + 1 - attempt)") auto

declare pushLoop.simps [simp del]

definition getLatestCommitSha :: "js_error + string list \<Rightarrow> js_error + string" where
  "getLatestCommitSha response =
     (case response of
        Inl e \<Rightarrow> Inl e
      | Inr [] \<Rightarrow> Inl (TypeError ''Cannot read properties of undefined (reading 'sha')'')
      | Inr (sha # rest) \<Rightarrow> Inr sha)"

text \<open>
  \<open>updateRepo\<close>. Removing the local copy and cloning gives a working copy whose tracked files
  are the remote tree. A push that succeeds makes the remote tree the committed tree; a
  push that throws leaves the remote tree as it was.
\<close>

definition updateRepo ::
  "github_config \<Rightarrow> update_env \<Rightarrow> string \<Rightarrow> (string \<times> string) list \<Rightarrow> git_world
    \<Rightarrow> (js_error + deploy_result) \<times> git_world \<times> event list" where
  "updateRepo cfg env repoName files w =
     (let localRepoPath = path_join (reposDir cfg) repoName;
          w0 = w\<lparr>local_copy := None\<rparr>
      in case git_clone env of
        Some e \<Rightarrow> (Inl e, w0, [Clone])
      | None \<Rightarrow>
          (case writeFiles (symlink_limit env) localRepoPath (fs_writeFile env) files
                  \<lparr>wc_files = remote_files w0, wrote_elsewhere = False\<rparr> of
             (Some e, wc) \<Rightarrow> (Inl e, w0\<lparr>local_copy := Some wc\<rparr>, [Clone])
           | (None, wc) \<Rightarrow>
               let w1 = w0\<lparr>local_copy := Some wc\<rparr> in
               (case git_add_commit env (remote_files w0) (wc_files wc) (wrote_elsewhere wc) of
                  Inl e \<Rightarrow> (Inl e, w1, [Clone])
                | Inr committed \<Rightarrow>
                    (case pushLoop (git_push env) 3 1 [Clone] of
                       (Inl e, tr) \<Rightarrow> (Inl e, w1, tr)
                     | (Inr False, tr) \<Rightarrow>
                         (Inl (Error ''Failed to push updates after all attempts'' None), w1, tr)
                     | (Inr True, tr) \<Rightarrow>
                         let w2 = w1\<lparr>remote_files := committed\<rparr> in
                         (case getLatestCommitSha (listCommits env) of
                            Inl e \<Rightarrow> (Inl e, w2, tr @ [ListCommits])
                          | Inr commitSha \<Rightarrow>
                              (case waitForPagesDeployment (pages_status env) 15 of
                                 (Inl e, tr2) \<Rightarrow> (Inl e, w2, tr @ [ListCommits] @ tr2)
                               | (Inr b, tr2) \<Rightarrow>
                                   (Inr \<lparr>repo_url = ''https://github.com/'' @ username cfg @ ''/'' @ repoName,
                                         commit_sha = commitSha,
                                         pages_url = ''https://'' @ username cfg @ ''.github.io/''
                                                       @ repoName @ ''/''\<rparr>,
                                    w2, tr @ [ListCommits] @ tr2 @ [Sleep 20000])))))))"

text \<open>
  The entries of a file set that land on the tracked tree \<open>t\<close>, each with the path its name
  resolves to there and the regular file it writes; and whether every entry that can be
  opened lands on the tracked tree.
\<close>

fun tracked_writes :: "nat \<Rightarrow> path \<Rightarrow> tree \<Rightarrow> (string \<times> string) list \<Rightarrow> (path \<times> node) list" where
  "tracked_writes limit base t [] = []"
| "tracked_writes limit base t ((filename, content) # files) =
     (case resolve_write limit base t filename of
        Inr (Tracked q) \<Rightarrow> (q, Regular content) # tracked_writes limit base t files
      | _ \<Rightarrow> tracked_writes limit base t files)"





section \<open>TaskHandler\<close>

record request =
  email :: "string field"
  secret :: "string field"
  task :: "string field"
  round :: "int field"
  nonce :: "string field"
  brief :: "string field"
  checks :: "string list field"
  evaluation_url :: "string field"
  attachments :: "(string \<times> string) list field"

datatype task_status = Processing | Completed deploy_result | Failed string

text \<open>
  The two maps of the handler. \<open>processedTasks\<close> is keyed by the task key, \<open>repoTracking\<close> by
  the \<open>email\<close> property of the request.
\<close>

record handler_state =
  processedTasks :: "string \<rightharpoonup> task_status"
  repoTracking :: "string field \<rightharpoonup> string"

datatype response = Accepted | Duplicate

text \<open>How a template literal or a regular-expression test renders a property.\<close>

definition string_of_field :: "string field \<Rightarrow> string" where
  "string_of_field f = (case f of Absent \<Rightarrow> ''undefined'' | Null \<Rightarrow> ''null'' | Val s \<Rightarrow> s)"

definition string_of_round :: "int field \<Rightarrow> string" where
  "string_of_round f = (case f of Absent \<Rightarrow> ''undefined'' | Null \<Rightarrow> ''null'' | Val n \<Rightarrow> show_int n)"

text \<open>
  \<open>/^[^\s@]+@[^\s@]+\.[^\s@]+$/\<close>: a non-empty part without white space or \<open>@\<close>, then
  \<open>@\<close>, then a part without white space or \<open>@\<close> that has a dot which is neither its first
  nor its last character.
\<close>

definition email_char :: "char \<Rightarrow> bool" where
  "email_char c = (\<not> isWhiteSpace c \<and> c \<noteq> CHR ''@'')"

definition emailRegex_test :: "string \<Rightarrow> bool" where
  "emailRegex_test s =
     (let name = takeWhile (\<lambda>c. c \<noteq> CHR ''@'') s;
          rest = dropWhile (\<lambda>c. c \<noteq> CHR ''@'') s
      in name \<noteq> [] \<and> list_all email_char name \<and>
         (case rest of
            [] \<Rightarrow> False
          | at # domain \<Rightarrow> list_all email_char domain \<and> CHR ''.'' \<in> set (butlast (tl domain))))"

text \<open>The first required property that is not \<open>in\<close> the request, in the order of the list.\<close>

definition missing_field :: "request \<Rightarrow> string option" where
  "missing_field request =
     (if email request = Absent then Some ''email''
      else if secret request = Absent then Some ''secret''
      else if task request = Absent then Some ''task''
      else if round request = Absent then Some ''round''
      else if nonce request = Absent then Some ''nonce''
      else if brief request = Absent then Some ''brief''
      else if checks request = Absent then Some ''checks''
      else if evaluation_url request = Absent then Some ''evaluation_url''
      else if attachments request = Absent then Some ''attachments''
      else None)"

definition validateRequest :: "request \<Rightarrow> js_error + unit" where
  "validateRequest request =
     (case missing_field request of
        Some f \<Rightarrow> Inl (Error (''Missing required field: '' @ f) None)
      | None \<Rightarrow>
          if round request \<noteq> Val 1 \<and> round request \<noteq> Val 2
          then Inl (Error ''Round must be 1 or 2'' None)
          else if \<not> emailRegex_test (string_of_field (email request))
          then Inl (Error ''Invalid email format'' None)
          else Inr ())"

definition verifyRequestSecret :: "environment \<Rightarrow> request \<Rightarrow> bool" where
  "verifyRequestSecret env request =
     (let isValid = verifySecret env (secret request) in if \<not> isValid then False else True)"

text \<open>
  The task name when \<open>task && task.trim()\<close> is truthy: the property is a string that is not
  empty after trimming. The name is the string as given, not the trimmed one.
\<close>

definition provided_task :: "string field \<Rightarrow> string option" where
  "provided_task t =
     (case t of
        Val s \<Rightarrow> if s = [] \<or> trim s = [] then None else Some s
      | _ \<Rightarrow> None)"

definition no_repository_error :: "string field \<Rightarrow> js_error" where
  "no_repository_error e =
     Error (''Cannot determine repository name for Round 2. ''
            @ ''Task field is empty and no previous repository found for email ''
            @ string_of_field e @ ''. ''
            @ ''Please provide the task/repository name in the request.'') None"

definition determineRepoName :: "request \<Rightarrow> handler_state \<Rightarrow> (js_error + string) \<times> handler_state" where
  "determineRepoName request st =
     (if round request = Val 1 then
        (case provided_task (task request) of
           None \<Rightarrow> (Inl (Error ''Task name is required for Round 1'' None), st)
         | Some t \<Rightarrow> (Inr t, st\<lparr>repoTracking := (repoTracking st)(email request \<mapsto> t)\<rparr>))
      else
        (case provided_task (task request) of
           Some t \<Rightarrow> (Inr t, st)
         | None \<Rightarrow>
             (case repoTracking st (email request) of
                None \<Rightarrow> (Inl (no_repository_error (email request)), st)
              | Some trackedRepo \<Rightarrow>
                  if trackedRepo = [] then (Inl (no_repository_error (email request)), st)
                  else (Inr trackedRepo, st))))"

definition taskKey :: "string \<Rightarrow> int field \<Rightarrow> string" where
  "taskKey repoName r = repoName @ ''-'' @ string_of_round r"

text \<open>
  \<open>handleTask\<close> has no \<open>await\<close> before its \<open>return\<close>, so it runs as one step on the state of
  the handler. Its third result is the background work it starts: the arguments of the call
  of \<open>processTaskAsync\<close>, if there is one.
\<close>

definition handleTask ::
  "environment \<Rightarrow> request \<Rightarrow> handler_state
    \<Rightarrow> (js_error + response) \<times> handler_state \<times> (request \<times> string) option" where
  "handleTask env request st =
     (case validateRequest request of
        Inl e \<Rightarrow> (Inl e, st, None)
      | Inr u \<Rightarrow>
          if \<not> verifyRequestSecret env request then (Inl (Error ''Invalid secret'' None), st, None)
          else
            (case determineRepoName request st of
               (Inl e, st1) \<Rightarrow> (Inl e, st1, None)
             | (Inr repoName, st1) \<Rightarrow>
                 if processedTasks st1 (taskKey repoName (round request)) \<noteq> None
                 then (Inr Duplicate, st1, None)
                 else (Inr Accepted,
                       st1\<lparr>processedTasks :=
                             (processedTasks st1)(taskKey repoName (round request) \<mapsto> Processing)\<rparr>,
                       Some (request, repoName))))"

text \<open>
  The call of the repository client that \<open>processTaskAsync\<close> makes once the file set is
  generated, and the name of the remote repository that call works on:
  \<open>createAndDeployRepo\<close> canonicalises its argument, \<open>updateRepo\<close> uses it as it is.
\<close>

datatype github_call = CreateAndDeployRepo string | UpdateRepo string

definition processTaskAsync_call :: "request \<Rightarrow> string \<Rightarrow> js_error + github_call" where
  "processTaskAsync_call request repoName =
     (if round request = Val 1 then Inr (CreateAndDeployRepo repoName)
      else if round request = Val 2 then Inr (UpdateRepo (sanitizeRepoName repoName))
      else Inl (Error (''Unsupported round number: '' @ string_of_round (round request)) None))"

fun remote_repository :: "github_call \<Rightarrow> string" where
  "remote_repository (CreateAndDeployRepo taskName) = sanitizeRepoName taskName"
| "remote_repository (UpdateRepo repoName) = repoName"

section \<open>TaskHandler.notifyEvaluationServer\<close>

text \<open>
  What one POST to the evaluation server comes to: no response at all, or a response with
  its status and body. \<open>axios_post\<close> is the HTTP client with its default \<open>validateStatus\<close>:
  the promise resolves for a status from 200 to 299 and rejects otherwise.
\<close>

datatype http_outcome = NoResponse string | Response int string

definition axios_post :: "http_outcome \<Rightarrow> js_error + int \<times> string" where
  "axios_post outcome =
     (case outcome of
        NoResponse m \<Rightarrow> Inl (Error m None)
      | Response st body \<Rightarrow>
          if 200 \<le> st \<and> st < 300 then Inr (st, body)
          else Inl (Error (''Request failed with status code '' @ show_int st) (Some st)))"

text \<open>The function handed to \<open>retryRequest\<close>.\<close>

definition notify_attempt :: "http_outcome \<Rightarrow> js_error + string" where
  "notify_attempt outcome =
     (case axios_post outcome of
        Inl e \<Rightarrow> Inl e
      | Inr (st, body) \<Rightarrow>
          if st \<noteq> 200 then Inl (Error (''Evaluation server returned status '' @ show_int st) None)
          else Inr body)"

text \<open>
  \<open>parseInt(process.env.X) || d\<close>: the variable as \<open>parseInt\<close> reads it (\<open>None\<close> is
  \<open>NaN\<close>: unset or not a number); \<open>NaN\<close> and \<open>0\<close> give the default.
\<close>

record retry_settings =
  MAX_RETRIES :: "int option"
  INITIAL_RETRY_DELAY :: "int option"

definition or_default :: "int option \<Rightarrow> int \<Rightarrow> int" where
  "or_default parsed d = (case parsed of None \<Rightarrow> d | Some n \<Rightarrow> if n = 0 then d else n)"

definition notifyEvaluationServer ::
  "retry_settings \<Rightarrow> (nat \<Rightarrow> http_outcome) \<Rightarrow> (js_error + unit) \<times> event list" where
  "notifyEvaluationServer settings server =
     (let maxRetries = or_default (MAX_RETRIES settings) 5;
          initialDelay = or_default (INITIAL_RETRY_DELAY settings) 1
      in case retryRequest (\<lambda>attempt. notify_attempt (server attempt)) (nat maxRetries) initialDelay of
           (Inl e, tr) \<Rightarrow> (Inl e, tr)
         | (Inr body, tr) \<Rightarrow> (Inr (), tr))"

text \<open>A status of the 2xx class.\<close>

definition is_2xx :: "int \<Rightarrow> bool" where
  "is_2xx st = (200 \<le> st \<and> st < 300)"

section \<open>Concrete inputs\<close>

text \<open>The state of a new \<open>TaskHandler\<close>: both maps are empty.\<close>

definition new_TaskHandler :: handler_state where
  "new_TaskHandler = \<lparr>processedTasks = Map.empty, repoTracking = Map.empty\<rparr>"

text \<open>A well-formed request of the requester \<open>student@example.com\<close>.\<close>

definition example_request :: "string \<Rightarrow> int \<Rightarrow> request" where
  "example_request t r =
     \<lparr>email = Val ''student@example.com'', secret = Val ''s3cret'', task = Val t, round = Val r,
      nonce = Val ''n-1'', brief = Val ''A page that greets the visitor'', checks = Val [''x''],
      evaluation_url = Val ''https://example.test/cb'', attachments = Val []\<rparr>"

definition example_environment :: environment where
  "example_environment = \<lparr>USER_SECRET = Some ''s3cret'', NODE_ENV = Some ''production''\<rparr>"

text \<open>
  Collaborators of \<open>updateRepo\<close> that all succeed, with a commit that records the working
  copy as it is and the site built at the first look.
\<close>

definition example_update_env :: update_env where
  "example_update_env =
     \<lparr>git_clone = None, symlink_limit = 40, fs_writeFile = (\<lambda>filename. None),
      git_add_commit = (\<lambda>head files elsewhere. Inr files),
      git_push = (\<lambda>attempt. None), listCommits = Inr [''0a1b2c3''],
      pages_status = (\<lambda>i. Inr ''built'')\<rparr>"

definition example_config :: github_config where
  "example_config =
     \<lparr>token = ''ghp_example'', username = ''octo'',
      reposDir = [''srv'', ''app'', ''generated-repos'']\<rparr>"

text \<open>A repository published in round 1, with no local copy left.\<close>

definition example_world :: git_world where
  "example_world =
     \<lparr>remote_files = [[''index.html''] \<mapsto> Regular ''<h1>one</h1>'', [''LICENSE''] \<mapsto> Regular ''MIT'',
                       [''README.md''] \<mapsto> Regular ''# hello''],
      local_copy = None\<rparr>"


section \<open>Properties of sanitizeRepoName\<close>

lemma lower_name_char: "is_name_char c \<Longrightarrow> toLowerCase_char c = c"
  by (auto simp: is_name_char_def is_lower_alnum_def toLowerCase_char_def code_def)

lemma replace_invalid_all: "list_all is_name_char (replace_invalid s)"
  by (induction s) (auto simp: replace_invalid_def is_name_char_def)

lemma replace_invalid_id: "list_all is_name_char s \<Longrightarrow> replace_invalid s = s"
  by (induction s) (auto simp: replace_invalid_def)

lemma toLowerCase_id: "list_all is_name_char s \<Longrightarrow> toLowerCase s = s"
  by (induction s) (auto simp: toLowerCase_def lower_name_char)

lemma collapse_set: "set (collapse_dashes s) \<subseteq> set s"
  by (induction s rule: collapse_dashes.induct) auto

lemma collapse_head: "\<exists>t. collapse_dashes (y # s) = y # t"
  by (induction s arbitrary: y) auto

lemma collapse_ndd: "no_double_dash (collapse_dashes s)"
proof (induction s rule: collapse_dashes.induct)
  case (1 x y s)
  obtain t where t: "collapse_dashes (y # s) = y # t"
    using collapse_head by blast
  with 1 show ?case by auto
qed auto

lemma collapse_id: "no_double_dash s \<Longrightarrow> collapse_dashes s = s"
  by (induction s rule: collapse_dashes.induct) auto

lemma ndd_tl: "no_double_dash (x # s) \<Longrightarrow> no_double_dash s"
  by (cases s) auto

lemma ndd_butlast: "no_double_dash s \<Longrightarrow> no_double_dash (butlast s)"
  by (induction s rule: no_double_dash.induct) (auto split: if_splits)

lemma ndd_last:
  "no_double_dash s \<Longrightarrow> s \<noteq> [] \<Longrightarrow> last s = CHR ''-'' \<Longrightarrow> butlast s \<noteq> []
    \<Longrightarrow> last (butlast s) \<noteq> CHR ''-''"
  by (induction s rule: no_double_dash.induct) (auto split: if_splits)

lemma strip_leading_props:
  assumes "no_double_dash s"
  shows "strip_leading_dash s = [] \<or> hd (strip_leading_dash s) \<noteq> CHR ''-''"
  using assms by (cases s rule: no_double_dash.cases) (auto simp: strip_leading_dash_def)

lemma strip_trailing_props:
  assumes "no_double_dash s" "s = [] \<or> hd s \<noteq> CHR ''-''"
  shows "dash_trimmed (strip_trailing_dash s)"
proof (cases "s \<noteq> [] \<and> last s = CHR ''-''")
  case True
  show ?thesis
  proof (cases "butlast s = []")
    case True
    then show ?thesis using \<open>s \<noteq> [] \<and> last s = CHR ''-''\<close>
      by (simp add: strip_trailing_dash_def dash_trimmed_def)
  next
    case False
    have "last (butlast s) \<noteq> CHR ''-''"
      using ndd_last[OF assms(1)] True False by blast
    moreover have "hd (butlast s) = hd s"
      using False by (cases s) auto
    ultimately show ?thesis using True assms(2)
      by (auto simp: strip_trailing_dash_def dash_trimmed_def)
  qed
next
  case False
  then show ?thesis using assms(2)
    by (auto simp: strip_trailing_dash_def dash_trimmed_def)
qed

lemma strip_leading_set: "set (strip_leading_dash s) \<subseteq> set s"
  by (cases s) (auto simp: strip_leading_dash_def)

lemma strip_trailing_set: "set (strip_trailing_dash s) \<subseteq> set s"
  by (auto simp: strip_trailing_dash_def dest: in_set_butlastD)

lemma strip_leading_ndd: "no_double_dash s \<Longrightarrow> no_double_dash (strip_leading_dash s)"
  by (cases s) (auto simp: strip_leading_dash_def dest: ndd_tl)

lemma strip_trailing_ndd: "no_double_dash s \<Longrightarrow> no_double_dash (strip_trailing_dash s)"
  by (simp add: strip_trailing_dash_def ndd_butlast)

lemma sanitize_name_chars: "list_all is_name_char (sanitizeRepoName s)"
proof -
  have "set (sanitizeRepoName s) \<subseteq> set (replace_invalid (toLowerCase s))"
    unfolding sanitizeRepoName_def
    using strip_trailing_set strip_leading_set collapse_set by (meson subset_trans)
  then show ?thesis
    using replace_invalid_all[of "toLowerCase s"] by (auto simp: list_all_iff)
qed

lemma sanitize_ndd: "no_double_dash (sanitizeRepoName s)"
  unfolding sanitizeRepoName_def
  by (intro strip_trailing_ndd strip_leading_ndd collapse_ndd)

lemma sanitize_trimmed: "dash_trimmed (sanitizeRepoName s)"
  unfolding sanitizeRepoName_def
  by (intro strip_trailing_props strip_leading_ndd strip_leading_props collapse_ndd)

lemma canonical_fixed:
  assumes "list_all is_name_char t" "no_double_dash t" "dash_trimmed t"
  shows "sanitizeRepoName t = t"
proof -
  have "strip_leading_dash t = t"
    using assms(3) by (cases t) (auto simp: strip_leading_dash_def dash_trimmed_def)
  moreover have "strip_trailing_dash t = t"
    using assms(3) by (auto simp: strip_trailing_dash_def dash_trimmed_def)
  ultimately show ?thesis
    using assms(1,2)
    by (simp add: sanitizeRepoName_def toLowerCase_id replace_invalid_id collapse_id)
qed

lemma canonical_matches:
  assumes "list_all is_name_char t" "dash_trimmed t" "t \<noteq> []"
  shows "matches_repo_pattern t"
proof -
  obtain c r where t: "t = c # r" using assms(3) by (cases t) auto
  have c: "is_lower_alnum c"
    using assms(1,2) t by (auto simp: dash_trimmed_def is_name_char_def)
  show ?thesis
  proof (cases "r = []")
    case True
    then show ?thesis using c t by (simp add: matches_repo_pattern_def)
  next
    case False
    have "last r \<in> set r" using False by simp
    then have "is_name_char (last r)" using assms(1) t by (auto simp: list_all_iff)
    moreover have "last r \<noteq> CHR ''-''" using assms(2) t False by (auto simp: dash_trimmed_def)
    ultimately have l: "is_lower_alnum (last r)" by (auto simp: is_name_char_def)
    have "list_all is_name_char (butlast r)"
      using assms(1) t by (auto simp: list_all_iff dest: in_set_butlastD)
    then show ?thesis using c l t False by (simp add: matches_repo_pattern_def)
  qed
qed

text \<open>
  C5. \<open>sanitizeRepoName\<close> is a total function of its string argument (no branch of it
  raises), it is idempotent, and its result is empty or matches
  \<open>^[a-z0-9]([a-z0-9-]*[a-z0-9])?$\<close>.
\<close>

theorem sanitizeRepoName_canonical:
  "sanitizeRepoName (sanitizeRepoName s) = sanitizeRepoName s \<and>
   (sanitizeRepoName s = [] \<or> matches_repo_pattern (sanitizeRepoName s))"
  using canonical_fixed[OF sanitize_name_chars sanitize_ndd sanitize_trimmed, of s]
        canonical_matches[OF sanitize_name_chars sanitize_trimmed, of s]
  by blast

theorem sanitizeRepoName_canonical_witness:
  "sanitizeRepoName ''Hello World!'' = ''hello-world'' \<and>
   sanitizeRepoName (sanitizeRepoName ''Hello World!'') = sanitizeRepoName ''Hello World!'' \<and>
   (sanitizeRepoName ''Hello World!'' = [] \<or>
    matches_repo_pattern (sanitizeRepoName ''Hello World!''))"
proof -
  have e: "sanitizeRepoName ''Hello World!'' = ''hello-world''"
    by code_simp
  show ?thesis
    using sanitizeRepoName_canonical[of "''Hello World!''"] e by simp
qed

section \<open>Properties of retryRequest\<close>

lemma failed_attempts_0: "failed_attempts d a 0 = []"
  by (simp add: failed_attempts_def)

lemma failed_attempts_step:
  "failed_attempts d a (Suc k) = [Invoke a, Sleep (d * 2 ^ (a - 1) * 1000)] @ failed_attempts d (Suc a) k"
proof -
  have "[a..<a + Suc k] = a # [Suc a..<Suc a + k]"
    by (simp add: upt_conv_Cons)
  then show ?thesis
    by (simp add: failed_attempts_def)
qed

lemma retryLoop_success:
  assumes "\<And>i. a \<le> i \<Longrightarrow> i < a + k \<Longrightarrow> isl (requestFn i)"
    and "requestFn (a + k) = Inr v" and "a + k \<le> n"
  shows "retryLoop requestFn n d a le tr = (Inr v, tr @ failed_attempts d a k @ [Invoke (a + k)])"
  using assms
proof (induction k arbitrary: a le tr)
  case 0
  then show ?case
    by (subst retryLoop.simps) (simp add: failed_attempts_0)
next
  case (Suc k)
  have "isl (requestFn a)" using Suc.prems(1)[of a] by simp
  then obtain e where e: "requestFn a = Inl e" by (cases "requestFn a") auto
  have step: "retryLoop requestFn n d a le tr =
        retryLoop requestFn n d (a + 1) (Some e) (tr @ [Invoke a, Sleep (d * 2 ^ (a - 1) * 1000)])"
    using Suc.prems(3) e by (subst retryLoop.simps) simp
  have "retryLoop requestFn n d (Suc a) (Some e) (tr @ [Invoke a, Sleep (d * 2 ^ (a - 1) * 1000)])
      = (Inr v, (tr @ [Invoke a, Sleep (d * 2 ^ (a - 1) * 1000)]) @ failed_attempts d (Suc a) k @ [Invoke (Suc a + k)])"
    using Suc.prems by (intro Suc.IH) auto
  with step show ?case by (simp add: failed_attempts_step)
qed

lemma retryLoop_exhausted:
  assumes "\<And>i. a \<le> i \<Longrightarrow> i \<le> a + k \<Longrightarrow> isl (requestFn i)"
    and "n = a + k"
  shows "retryLoop requestFn n d a le tr =
           (Inl (retry_failed n (Some (projl (requestFn n)))), tr @ failed_attempts d a k @ [Invoke n])"
  using assms
proof (induction k arbitrary: a le tr)
  case 0
  have "isl (requestFn a)" using 0(1)[of a] by simp
  then obtain e where e: "requestFn a = Inl e" by (cases "requestFn a") auto
  then show ?case using 0(2)
    by (subst retryLoop.simps) (simp add: failed_attempts_0)
next
  case (Suc k)
  have "isl (requestFn a)" using Suc.prems(1)[of a] by simp
  then obtain e where e: "requestFn a = Inl e" by (cases "requestFn a") auto
  have step: "retryLoop requestFn n d a le tr =
        retryLoop requestFn n d (a + 1) (Some e) (tr @ [Invoke a, Sleep (d * 2 ^ (a - 1) * 1000)])"
    using Suc.prems(2) e by (subst retryLoop.simps) simp
  have "retryLoop requestFn n d (Suc a) (Some e) (tr @ [Invoke a, Sleep (d * 2 ^ (a - 1) * 1000)])
      = (Inl (retry_failed n (Some (projl (requestFn n)))),
         (tr @ [Invoke a, Sleep (d * 2 ^ (a - 1) * 1000)]) @ failed_attempts d (Suc a) k @ [Invoke n])"
    using Suc.prems by (intro Suc.IH) auto
  with step show ?case by (simp add: failed_attempts_step)
qed

lemma total_sleep_append: "total_sleep (xs @ ys) = total_sleep xs + total_sleep ys"
  by (simp add: total_sleep_def)

lemma total_sleep_failed_attempts:
  "total_sleep (failed_attempts d (Suc a) k) = d * (\<Sum>i<k. 2 ^ (a + i)) * 1000"
proof (induction k arbitrary: a)
  case 0
  then show ?case by (simp add: failed_attempts_0 total_sleep_def)
next
  case (Suc k)
  have "(\<Sum>i<Suc k. (2::int) ^ (a + i)) = 2 ^ a + (\<Sum>i<k. 2 ^ (Suc a + i))"
    by (subst sum.lessThan_Suc_shift) simp
  then show ?case
    using Suc.IH[of "Suc a"]
    by (simp add: failed_attempts_step total_sleep_def algebra_simps)
qed

lemma invocations_failed_attempts:
  "invocations (failed_attempts d a k) = map Invoke [a..<a + k]"
proof (induction k arbitrary: a)
  case 0
  then show ?case by (simp add: failed_attempts_0 invocations_def)
next
  case (Suc k)
  show ?case
    using Suc.IH[of "Suc a"]
    by (simp add: failed_attempts_step invocations_def upt_conv_Cons)
qed

lemma invocations_append: "invocations (xs @ ys) = invocations xs @ invocations ys"
  by (simp add: invocations_def)

text \<open>
  C2. If the operation fails on its first \<open>k\<close> calls and returns \<open>v\<close> on call \<open>k + 1\<close>, with
  \<open>k < maxAttempts\<close>, then \<open>retryRequest\<close> returns \<open>v\<close>, has called the operation \<open>k + 1\<close>
  times and has slept \<open>initialDelay * (2^0 + ... + 2^(k-1))\<close> seconds in total. If the operation
  fails on every call and \<open>1 \<le> maxAttempts\<close>, then \<open>retryRequest\<close> calls it exactly
  \<open>maxAttempts\<close> times, the last effect is that call (no wait follows it), and the error
  raised carries the attempt count and the message of the last failure.
\<close>

theorem retryRequest_backoff:
  "(k < maxAttempts \<and> (\<forall>i. 1 \<le> i \<and> i \<le> k \<longrightarrow> isl (requestFn i)) \<and> requestFn (k + 1) = Inr v \<longrightarrow>
      fst (retryRequest requestFn maxAttempts initialDelay) = Inr v \<and>
      total_sleep (snd (retryRequest requestFn maxAttempts initialDelay))
        = initialDelay * (\<Sum>i<k. 2 ^ i) * 1000 \<and>
      invocations (snd (retryRequest requestFn maxAttempts initialDelay)) = map Invoke [1..<k + 2]) \<and>
   (1 \<le> maxAttempts \<and> (\<forall>i. 1 \<le> i \<and> i \<le> maxAttempts \<longrightarrow> isl (requestFn i)) \<longrightarrow>
      fst (retryRequest requestFn maxAttempts initialDelay)
        = Inl (Error (''Failed after '' @ show_nat maxAttempts @ '' attempts: ''
                        @ message (projl (requestFn maxAttempts))) None) \<and>
      invocations (snd (retryRequest requestFn maxAttempts initialDelay))
        = map Invoke [1..<maxAttempts + 1] \<and>
      last (snd (retryRequest requestFn maxAttempts initialDelay)) = Invoke maxAttempts \<and>
      total_sleep (snd (retryRequest requestFn maxAttempts initialDelay))
        = initialDelay * (\<Sum>i<maxAttempts - 1. 2 ^ i) * 1000)"
proof (intro conjI impI)
  assume h: "k < maxAttempts \<and> (\<forall>i. 1 \<le> i \<and> i \<le> k \<longrightarrow> isl (requestFn i)) \<and> requestFn (k + 1) = Inr v"
  have r: "retryRequest requestFn maxAttempts initialDelay
          = (Inr v, failed_attempts initialDelay (Suc 0) k @ [Invoke (Suc k)])"
  proof -
    have f: "\<And>i. 1 \<le> i \<Longrightarrow> i < 1 + k \<Longrightarrow> isl (requestFn i)"
      using h by simp
    have "retryLoop requestFn maxAttempts initialDelay 1 None [] =
           (Inr v, [] @ failed_attempts initialDelay 1 k @ [Invoke (1 + k)])"
      using h by (intro retryLoop_success[OF f]) simp_all
    then show ?thesis
      by (simp add: retryRequest_def)
  qed
  show "fst (retryRequest requestFn maxAttempts initialDelay) = Inr v"
    by (simp add: r)
  show "total_sleep (snd (retryRequest requestFn maxAttempts initialDelay))
        = initialDelay * (\<Sum>i<k. 2 ^ i) * 1000"
    using total_sleep_failed_attempts[of initialDelay 0 k]
    by (simp add: r total_sleep_append) (simp add: total_sleep_def)
  show "invocations (snd (retryRequest requestFn maxAttempts initialDelay)) = map Invoke [1..<k + 2]"
    by (simp add: r invocations_append invocations_failed_attempts) (simp add: invocations_def)
next
  assume h: "1 \<le> maxAttempts \<and> (\<forall>i. 1 \<le> i \<and> i \<le> maxAttempts \<longrightarrow> isl (requestFn i))"
  then obtain k where k: "maxAttempts = Suc k" by (cases maxAttempts) auto
  have r: "retryRequest requestFn (Suc k) initialDelay
          = (Inl (retry_failed (Suc k) (Some (projl (requestFn (Suc k))))),
             failed_attempts initialDelay (Suc 0) k @ [Invoke (Suc k)])"
  proof -
    have f: "\<And>i. 1 \<le> i \<Longrightarrow> i \<le> 1 + k \<Longrightarrow> isl (requestFn i)"
      using h k by simp
    have "retryLoop requestFn (Suc k) initialDelay 1 None [] =
           (Inl (retry_failed (Suc k) (Some (projl (requestFn (Suc k))))),
            [] @ failed_attempts initialDelay 1 k @ [Invoke (Suc k)])"
      by (rule retryLoop_exhausted[OF f]) simp_all
    then show ?thesis
      by (simp add: retryRequest_def)
  qed
  show "fst (retryRequest requestFn maxAttempts initialDelay)
        = Inl (Error (''Failed after '' @ show_nat maxAttempts @ '' attempts: ''
                        @ message (projl (requestFn maxAttempts))) None)"
    unfolding k by (simp add: r retry_failed_def)
  show "invocations (snd (retryRequest requestFn maxAttempts initialDelay))
        = map Invoke [1..<maxAttempts + 1]"
    unfolding k
    by (simp add: r invocations_append invocations_failed_attempts) (simp add: invocations_def)
  show "last (snd (retryRequest requestFn maxAttempts initialDelay)) = Invoke maxAttempts"
    unfolding k by (simp add: r)
  show "total_sleep (snd (retryRequest requestFn maxAttempts initialDelay))
        = initialDelay * (\<Sum>i<maxAttempts - 1. 2 ^ i) * 1000"
    unfolding k
    using total_sleep_failed_attempts[of initialDelay 0 k]
    by (simp add: r total_sleep_append) (simp add: total_sleep_def)
qed

theorem retryRequest_backoff_witness:
  "fst (retryRequest (\<lambda>i. if i \<le> 2 then Inl (Error ''down'' None) else Inr ''ok'') 5 1) = Inr ''ok'' \<and>
   total_sleep (snd (retryRequest (\<lambda>i. if i \<le> 2 then Inl (Error ''down'' None) else Inr ''ok'') 5 1))
     = 3000 \<and>
   fst (retryRequest (\<lambda>i. Inl (Error ''down'' None) :: js_error + string) 3 1)
     = Inl (Error ''Failed after 3 attempts: down'' None) \<and>
   last (snd (retryRequest (\<lambda>i. Inl (Error ''down'' None) :: js_error + string) 3 1)) = Invoke 3 \<and>
   total_sleep (snd (retryRequest (\<lambda>i. Inl (Error ''down'' None) :: js_error + string) 3 1)) = 3000"
proof -
  have s3: "show_nat 3 = ''3''" by code_simp
  have sum2: "(\<Sum>i<2::nat. (2::int) ^ i) = 3" by (simp add: lessThan_Suc numeral_2_eq_2)
  have a: "(2::nat) < 5 \<and> (\<forall>i. 1 \<le> i \<and> i \<le> 2 \<longrightarrow>
             isl (if i \<le> (2::nat) then Inl (Error ''down'' None) else (Inr ''ok'' :: js_error + string))) \<and>
           (if (2::nat) + 1 \<le> 2 then Inl (Error ''down'' None) else (Inr ''ok'' :: js_error + string)) = Inr ''ok''"
    by simp
  have b: "(1::nat) \<le> 3 \<and> (\<forall>i::nat. 1 \<le> i \<and> i \<le> 3 \<longrightarrow> isl (Inl (Error ''down'' None) :: js_error + string))"
    by simp
  note t1 = retryRequest_backoff[of 2 5 "\<lambda>i. if i \<le> 2 then Inl (Error ''down'' None) else Inr ''ok''"
            "''ok''" 1, THEN conjunct1, rule_format, OF a]
  note t2 = retryRequest_backoff[of 0 3 "\<lambda>i. Inl (Error ''down'' None) :: js_error + string" "''x''" 1,
            THEN conjunct2, rule_format, OF b]
  show ?thesis
    using t1 t2 s3 sum2 by simp
qed

section \<open>Properties of waitForPagesDeployment and enableGitHubPages\<close>

lemma first_built_step:
  "i < n \<Longrightarrow> first_built g i n = (if g i = Inr ''built'' then Some i else first_built g (Suc i) n)"
  by (simp add: first_built_def upt_conv_Cons)

lemma first_built_done: "\<not> i < n \<Longrightarrow> first_built g i n = None"
  by (simp add: first_built_def)

lemma unbuilt_polls_step:
  "i < j \<Longrightarrow> unbuilt_polls i j = [GetPages i, Sleep 5000] @ unbuilt_polls (Suc i) j"
  by (simp add: unbuilt_polls_def upt_conv_Cons)

lemma unbuilt_polls_empty: "\<not> i < j \<Longrightarrow> unbuilt_polls i j = []"
  by (simp add: unbuilt_polls_def)

lemma first_built_bounds:
  "first_built g i n = Some j \<Longrightarrow> i \<le> j \<and> j < n \<and> g j = Inr ''built''"
  by (auto simp: first_built_def find_Some_iff)

lemma waitLoop_trace:
  "waitLoop g n i tr =
     (case first_built g i n of
        Some j \<Rightarrow> (Inr True, tr @ unbuilt_polls i j @ [GetPages j, Sleep 10000])
      | None \<Rightarrow> (Inr False, tr @ unbuilt_polls i n @ [Sleep 15000]))"
proof (induction g n i tr rule: waitLoop.induct)
  case (1 g n i tr)
  show ?case
  proof (cases "i < n")
    case False
    then show ?thesis
      by (subst waitLoop.simps) (simp add: first_built_done unbuilt_polls_empty)
  next
    case True
    show ?thesis
    proof (cases "g i = Inr ''built''")
      case built: True
      then show ?thesis using True
        by (subst waitLoop.simps) (simp add: first_built_step unbuilt_polls_empty)
    next
      case notbuilt: False
      have step: "waitLoop g n i tr = waitLoop g n (i + 1) (tr @ [GetPages i, Sleep 5000])"
        using True notbuilt by (subst waitLoop.simps) (auto split: sum.splits)
      have ih: "waitLoop g n (i + 1) (tr @ [GetPages i, Sleep 5000]) =
         (case first_built g (i + 1) n of
            Some j \<Rightarrow> (Inr True, (tr @ [GetPages i, Sleep 5000]) @ unbuilt_polls (i + 1) j @ [GetPages j, Sleep 10000])
          | None \<Rightarrow> (Inr False, (tr @ [GetPages i, Sleep 5000]) @ unbuilt_polls (i + 1) n @ [Sleep 15000]))"
      proof (cases "g i")
        case (Inl e)
        show ?thesis by (rule "1.IH"(1)[OF True Inl])
      next
        case (Inr st)
        then have ne: "st \<noteq> ''built''" using notbuilt by simp
        show ?thesis by (rule "1.IH"(2)[OF True Inr ne])
      qed
      show ?thesis
      proof (cases "first_built g (Suc i) n")
        case None
        then show ?thesis using step ih True notbuilt
          by (simp add: first_built_step unbuilt_polls_step)
      next
        case (Some j)
        then have "i < j" using first_built_bounds[OF Some] by simp
        then show ?thesis using step ih True notbuilt Some
          by (simp add: first_built_step unbuilt_polls_step)
      qed
    qed
  qed
qed

lemma polls_unbuilt: "length (polls (unbuilt_polls i j)) = j - i"
proof (induction "j - i" arbitrary: i)
  case 0
  then show ?case by (simp add: unbuilt_polls_empty polls_def)
next
  case (Suc d)
  then have "i < j" by simp
  moreover have "length (polls (unbuilt_polls (Suc i) j)) = j - Suc i"
    using Suc by (intro Suc.hyps(1)) simp
  ultimately show ?case
    by (simp add: unbuilt_polls_step polls_def)
qed

lemma polls_append: "polls (xs @ ys) = polls xs @ polls ys"
  by (simp add: polls_def)

text \<open>
  C1. For every sequence of answers of the hosting platform and every budget \<open>maxChecks\<close>,
  \<open>waitForPagesDeployment\<close> returns a boolean and never raises, and it sends at most
  \<open>maxChecks\<close> status requests. If some request within the budget reports "built", then every
  earlier request is followed by a wait of 5000 ms, the first request that reports "built" is
  followed by one wait of 10000 ms, and the result is \<open>true\<close>. If no request within the budget
  reports "built", each of the \<open>maxChecks\<close> requests is followed by a wait of 5000 ms, one
  further wait of 15000 ms follows, and the result is \<open>false\<close>.
\<close>

theorem waitForPagesDeployment_polling:
  "(\<exists>b. fst (waitForPagesDeployment getPages maxChecks) = Inr b) \<and>
   length (polls (snd (waitForPagesDeployment getPages maxChecks))) \<le> maxChecks \<and>
   ((\<exists>j<maxChecks. getPages j = Inr ''built'') \<longrightarrow>
      (\<exists>j<maxChecks. getPages j = Inr ''built'' \<and>
         waitForPagesDeployment getPages maxChecks
           = (Inr True, unbuilt_polls 0 j @ [GetPages j, Sleep 10000]))) \<and>
   ((\<forall>j<maxChecks. getPages j \<noteq> Inr ''built'') \<longrightarrow>
      waitForPagesDeployment getPages maxChecks
        = (Inr False, unbuilt_polls 0 maxChecks @ [Sleep 15000]))"
proof -
  let ?r = "waitForPagesDeployment getPages maxChecks"
  have r: "?r = (case first_built getPages 0 maxChecks of
        Some j \<Rightarrow> (Inr True, unbuilt_polls 0 j @ [GetPages j, Sleep 10000])
      | None \<Rightarrow> (Inr False, unbuilt_polls 0 maxChecks @ [Sleep 15000]))"
    using waitLoop_trace[of getPages maxChecks 0 "[]"]
    by (simp add: waitForPagesDeployment_def split: option.splits)
  show ?thesis
  proof (cases "first_built getPages 0 maxChecks")
    case None
    then have nb: "\<forall>j<maxChecks. getPages j \<noteq> Inr ''built''"
      by (auto simp: first_built_def find_None_iff)
    have "length (polls (unbuilt_polls 0 maxChecks @ [Sleep 15000])) \<le> maxChecks"
      by (simp add: polls_append polls_unbuilt) (simp add: polls_def)
    then show ?thesis using r None nb by auto
  next
    case (Some j)
    then have j: "j < maxChecks" "getPages j = Inr ''built''"
      using first_built_bounds[OF Some] by auto
    have "length (polls (unbuilt_polls 0 j @ [GetPages j, Sleep 10000])) \<le> maxChecks"
      using j(1) by (simp add: polls_append polls_unbuilt) (simp add: polls_def)
    then show ?thesis using r Some j by auto
  qed
qed

theorem waitForPagesDeployment_polling_witness:
  "waitForPagesDeployment (\<lambda>i. if i = 2 then Inr ''built'' else Inr ''building'') 15
     = (Inr True, [GetPages 0, Sleep 5000, GetPages 1, Sleep 5000, GetPages 2, Sleep 10000]) \<and>
   waitForPagesDeployment (\<lambda>i. Inl (Error ''Not Found'' (Some 404))) 2
     = (Inr False, [GetPages 0, Sleep 5000, GetPages 1, Sleep 5000, Sleep 15000])"
proof -
  have u2: "unbuilt_polls 0 2 = [GetPages 0, Sleep 5000, GetPages 1, Sleep 5000]"
    by (simp add: unbuilt_polls_def upt_conv_Cons)
  have nb: "\<And>j::nat. j < 2 \<Longrightarrow> (Inl (Error ''Not Found'' (Some 404)) :: js_error + string) \<noteq> Inr ''built''"
    by simp
  note t2 = waitForPagesDeployment_polling[of "\<lambda>i. Inl (Error ''Not Found'' (Some 404))" 2,
      THEN conjunct2, THEN conjunct2, THEN conjunct2, rule_format, OF nb]
  have b: "\<exists>j<15::nat. (if j = 2 then Inr ''built'' else (Inr ''building'' :: js_error + string)) = Inr ''built''"
    by (rule exI[of _ 2]) simp
  from waitForPagesDeployment_polling[of "\<lambda>i. if i = 2 then Inr ''built'' else Inr ''building''" 15,
      THEN conjunct2, THEN conjunct2, THEN conjunct1, rule_format, OF b]
  obtain j where j: "(if j = 2 then Inr ''built'' else (Inr ''building'' :: js_error + string)) = Inr ''built''"
    and t1: "waitForPagesDeployment (\<lambda>i. if i = 2 then Inr ''built'' else Inr ''building'') 15
           = (Inr True, unbuilt_polls 0 j @ [GetPages j, Sleep 10000])"
    by blast
  have "j = 2" using j by (simp split: if_splits)
  then show ?thesis using t1 t2 u2 by simp
qed

text \<open>
  C8. For every answer of the platform to the activation request, and every sequence of
  answers to the status requests that follow a successful activation, \<open>enableGitHubPages\<close>
  returns normally: a 409 conflict and every other failure end in the \<open>catch\<close>, which does
  not rethrow. In particular a second call for the same repository does not raise.
\<close>

theorem enableGitHubPages_returns:
  "fst (enableGitHubPages createPagesSite getPages) = Inr ()"
  by (simp add: enableGitHubPages_def split: sum.splits prod.splits)

theorem enableGitHubPages_returns_witness:
  "fst (enableGitHubPages (Inr ()) (\<lambda>i. Inr ''built'')) = Inr () \<and>
   fst (enableGitHubPages (Inl (Error ''Conflict'' (Some 409))) (\<lambda>i. Inr ''built'')) = Inr () \<and>
   fst (enableGitHubPages (Inl (Error ''Server Error'' (Some 500))) (\<lambda>i. Inr ''built'')) = Inr ()"
  using enableGitHubPages_returns[of "Inr ()" "\<lambda>i. Inr ''built''"]
        enableGitHubPages_returns[of "Inl (Error ''Conflict'' (Some 409))" "\<lambda>i. Inr ''built''"]
        enableGitHubPages_returns[of "Inl (Error ''Server Error'' (Some 500))" "\<lambda>i. Inr ''built''"]
  by simp

section \<open>Properties of verifySecret\<close>

lemma determineRepoName_not_secret_error:
  "fst (determineRepoName request st) \<noteq> Inl (Error ''Invalid secret'' None)"
  by (simp add: determineRepoName_def no_repository_error_def split: option.splits)

text \<open>
  C10. When \<open>USER_SECRET\<close> is not configured (unset or empty) and \<open>NODE_ENV\<close> is
  "development", \<open>verifySecret\<close> returns \<open>true\<close> for every provided secret, so
  \<open>verifyRequestSecret\<close> accepts every request and a request that passes validation is not
  rejected with "Invalid secret". When \<open>USER_SECRET\<close> is not configured and \<open>NODE_ENV\<close> is
  anything else, \<open>verifySecret\<close> returns \<open>false\<close> for every provided secret, and every
  request that passes validation is rejected with "Invalid secret".
\<close>

theorem verifySecret_unconfigured:
  "(USER_SECRET env = None \<or> USER_SECRET env = Some []) \<longrightarrow>
     (NODE_ENV env = Some ''development'' \<longrightarrow>
        verifySecret env providedSecret \<and> verifyRequestSecret env request \<and>
        (validateRequest request = Inr () \<longrightarrow>
           fst (handleTask env request st) \<noteq> Inl (Error ''Invalid secret'' None))) \<and>
     (NODE_ENV env \<noteq> Some ''development'' \<longrightarrow>
        \<not> verifySecret env providedSecret \<and> \<not> verifyRequestSecret env request \<and>
        (validateRequest request = Inr () \<longrightarrow>
           handleTask env request st = (Inl (Error ''Invalid secret'' None), st, None)))"
proof (intro impI conjI)
  assume u: "USER_SECRET env = None \<or> USER_SECRET env = Some []"
  {
    assume d: "NODE_ENV env = Some ''development''"
    show v: "verifySecret env providedSecret"
      using u d by (auto simp: verifySecret_def)
    show r: "verifyRequestSecret env request"
      using u d by (auto simp: verifyRequestSecret_def verifySecret_def)
    assume "validateRequest request = Inr ()"
    then show "fst (handleTask env request st) \<noteq> Inl (Error ''Invalid secret'' None)"
      using r determineRepoName_not_secret_error[of request st]
      by (auto simp: handleTask_def split: prod.splits sum.splits)
  }
  {
    assume d: "NODE_ENV env \<noteq> Some ''development''"
    show "\<not> verifySecret env providedSecret"
      using u d by (auto simp: verifySecret_def)
    show r: "\<not> verifyRequestSecret env request"
      using u d by (auto simp: verifyRequestSecret_def verifySecret_def)
    assume "validateRequest request = Inr ()"
    then show "handleTask env request st = (Inl (Error ''Invalid secret'' None), st, None)"
      using r by (simp add: handleTask_def)
  }
qed

theorem verifySecret_unconfigured_witness:
  "verifySecret \<lparr>USER_SECRET = None, NODE_ENV = Some ''development''\<rparr> (Val ''anything'') \<and>
   verifyRequestSecret \<lparr>USER_SECRET = None, NODE_ENV = Some ''development''\<rparr>
     (example_request ''hello-world'' 1) \<and>
   \<not> verifySecret \<lparr>USER_SECRET = Some [], NODE_ENV = Some ''production''\<rparr> (Val ''anything'') \<and>
   handleTask \<lparr>USER_SECRET = Some [], NODE_ENV = Some ''production''\<rparr>
     (example_request ''hello-world'' 1) new_TaskHandler
     = (Inl (Error ''Invalid secret'' None), new_TaskHandler, None)"
proof -
  have v: "validateRequest (example_request ''hello-world'' 1) = Inr ()"
    by code_simp
  show ?thesis
    using verifySecret_unconfigured[of "\<lparr>USER_SECRET = None, NODE_ENV = Some ''development''\<rparr>"
            "Val ''anything''" "example_request ''hello-world'' 1" new_TaskHandler]
          verifySecret_unconfigured[of "\<lparr>USER_SECRET = Some [], NODE_ENV = Some ''production''\<rparr>"
            "Val ''anything''" "example_request ''hello-world'' 1" new_TaskHandler]
          v
    by simp
qed

section \<open>Properties of notifyEvaluationServer\<close>

text \<open>
  C7, as stated, fails: a response with status 201 is of the 2xx class, the HTTP client
  resolves, and the operation still raises, because it compares the status with 200.
\<close>

theorem notify_attempt_counterexample:
  "is_2xx 201 \<and>
   notify_attempt (Response 201 ''ok'')
     = Inl (Error ''Evaluation server returned status 201'' None)"
  by code_simp

text \<open>
  C7, amended. The operation handed to \<open>retryRequest\<close> returns normally if and only if the POST
  got a response with status 200, and then it returns the body. Every other response, and a
  request without a response, is a raised error, so a failure that \<open>retryRequest\<close> retries.
  With neither variable set, \<open>notifyEvaluationServer\<close> runs \<open>retryRequest\<close> with 5 attempts
  and an initial delay of 1 second.
\<close>

theorem notify_attempt_only_200:
  "((\<exists>body. notify_attempt outcome = Inr body) \<longleftrightarrow> (\<exists>body. outcome = Response 200 body)) \<and>
   notify_attempt (Response 200 body) = Inr body \<and>
   (st \<noteq> 200 \<longrightarrow> isl (notify_attempt (Response st body))) \<and>
   isl (notify_attempt (NoResponse m)) \<and>
   notifyEvaluationServer \<lparr>MAX_RETRIES = None, INITIAL_RETRY_DELAY = None\<rparr> server
     = (case retryRequest (\<lambda>attempt. notify_attempt (server attempt)) 5 1 of
          (Inl e, tr) \<Rightarrow> (Inl e, tr)
        | (Inr b, tr) \<Rightarrow> (Inr (), tr))"
proof (intro conjI)
  show "(\<exists>body. notify_attempt outcome = Inr body) \<longleftrightarrow> (\<exists>body. outcome = Response 200 body)"
    by (cases outcome) (auto simp: notify_attempt_def axios_post_def split: if_splits)
  show "notify_attempt (Response 200 body) = Inr body"
    by (simp add: notify_attempt_def axios_post_def)
  show "st \<noteq> 200 \<longrightarrow> isl (notify_attempt (Response st body))"
    by (simp add: notify_attempt_def axios_post_def)
  show "isl (notify_attempt (NoResponse m))"
    by (simp add: notify_attempt_def axios_post_def)
  show "notifyEvaluationServer \<lparr>MAX_RETRIES = None, INITIAL_RETRY_DELAY = None\<rparr> server
     = (case retryRequest (\<lambda>attempt. notify_attempt (server attempt)) 5 1 of
          (Inl e, tr) \<Rightarrow> (Inl e, tr)
        | (Inr b, tr) \<Rightarrow> (Inr (), tr))"
    by (simp add: notifyEvaluationServer_def or_default_def)
qed

theorem notify_attempt_only_200_witness:
  "notify_attempt (Response 200 ''ok'') = Inr ''ok'' \<and>
   isl (notify_attempt (Response 204 [])) \<and>
   isl (notify_attempt (Response 503 ''busy''))"
  using notify_attempt_only_200[of "Response 200 ''ok''" "''ok''" 200 "''x''" "\<lambda>i. Response 200 ''ok''"]
        notify_attempt_only_200[of "Response 204 []" "[]" 204 "''x''" "\<lambda>i. Response 200 ''ok''"]
        notify_attempt_only_200[of "Response 503 ''busy''" "''busy''" 503 "''x''" "\<lambda>i. Response 200 ''ok''"]
  by simp

section \<open>The email pattern of validateRequest\<close>

text \<open>
  \<open>emailRegex_test\<close> accepts exactly the strings of the shape \<open>a @ b . c\<close> with \<open>a\<close>, \<open>b\<close> and
  \<open>c\<close> non-empty and free of white space and \<open>@\<close>: the language of the pattern.
\<close>

lemma email_char_dot: "email_char CHR ''.''"
  by (simp add: email_char_def isWhiteSpace_def code_def)

lemma emailRegex_test_iff:
  "emailRegex_test s \<longleftrightarrow>
     (\<exists>a b c. s = a @ ''@'' @ b @ ''.'' @ c \<and> a \<noteq> [] \<and> b \<noteq> [] \<and> c \<noteq> [] \<and>
        list_all email_char a \<and> list_all email_char b \<and> list_all email_char c)"
proof
  assume t: "emailRegex_test s"
  let ?name = "takeWhile (\<lambda>c. c \<noteq> CHR ''@'') s"
  let ?rest = "dropWhile (\<lambda>c. c \<noteq> CHR ''@'') s"
  from t obtain at domain where rest: "?rest = at # domain"
    by (cases ?rest) (auto simp: emailRegex_test_def Let_def)
  have at: "at = CHR ''@''"
    using hd_dropWhile[of "\<lambda>c. c \<noteq> CHR ''@''" s] rest by auto
  from t rest have n: "?name \<noteq> []" "list_all email_char ?name"
    and d: "list_all email_char domain" "CHR ''.'' \<in> set (butlast (tl domain))"
    by (auto simp: emailRegex_test_def Let_def)
  from d(2) obtain xs ys where sp: "butlast (tl domain) = xs @ CHR ''.'' # ys"
    by (meson split_list)
  then have tl_ne: "tl domain \<noteq> []" by auto
  then obtain d0 where dom: "domain = d0 # tl domain" by (cases domain) auto
  have tl_eq: "tl domain = xs @ CHR ''.'' # ys @ [last (tl domain)]"
    using append_butlast_last_id[OF tl_ne] sp by simp
  have s_eq: "s = ?name @ ''@'' @ (d0 # xs) @ ''.'' @ (ys @ [last (tl domain)])"
  proof -
    have "s = ?name @ ?rest" by simp
    also have "?rest = CHR ''@'' # d0 # tl domain" using rest at dom by simp
    finally show ?thesis using tl_eq by simp
  qed
  have "list_all email_char (d0 # xs @ CHR ''.'' # ys @ [last (tl domain)])"
    using d(1) dom tl_eq by simp
  then have "list_all email_char (d0 # xs)" "list_all email_char (ys @ [last (tl domain)])"
    by simp_all
  then show "\<exists>a b c. s = a @ ''@'' @ b @ ''.'' @ c \<and> a \<noteq> [] \<and> b \<noteq> [] \<and> c \<noteq> [] \<and>
        list_all email_char a \<and> list_all email_char b \<and> list_all email_char c"
    using s_eq n by blast
next
  assume "\<exists>a b c. s = a @ ''@'' @ b @ ''.'' @ c \<and> a \<noteq> [] \<and> b \<noteq> [] \<and> c \<noteq> [] \<and>
        list_all email_char a \<and> list_all email_char b \<and> list_all email_char c"
  then obtain a b c where s: "s = a @ ''@'' @ b @ ''.'' @ c"
    and ne: "a \<noteq> []" "b \<noteq> []" "c \<noteq> []"
    and ok: "list_all email_char a" "list_all email_char b" "list_all email_char c"
    by blast
  have na: "\<forall>x\<in>set a. x \<noteq> CHR ''@''"
    using ok(1) by (auto simp: list_all_iff email_char_def)
  have tw: "takeWhile (\<lambda>c. c \<noteq> CHR ''@'') s = a"
    using na by (simp add: s takeWhile_append2)
  have dw: "dropWhile (\<lambda>c. c \<noteq> CHR ''@'') s = CHR ''@'' # b @ CHR ''.'' # c"
    using na by (simp add: s dropWhile_append2)
  obtain b0 b' where b: "b = b0 # b'" using ne(2) by (cases b) auto
  have "butlast (tl (b @ CHR ''.'' # c)) = b' @ CHR ''.'' # butlast c"
    using ne(3) b by (simp add: butlast_append)
  then have dot: "CHR ''.'' \<in> set (butlast (tl (b @ CHR ''.'' # c)))" by simp
  have "list_all email_char (b @ CHR ''.'' # c)"
    using ok(2,3) email_char_dot by simp
  then show "emailRegex_test s"
    using tw dw ne(1) ok(1) dot by (simp add: emailRegex_test_def Let_def)
qed

section \<open>Properties of determineRepoName and handleTask\<close>

lemma validate_example: "r = 1 \<or> r = 2 \<Longrightarrow> validateRequest (example_request t r) = Inr ()"
proof -
  assume r: "r = 1 \<or> r = 2"
  have e: "emailRegex_test ''student@example.com''" by code_simp
  show ?thesis using r e
    by (auto simp: validateRequest_def example_request_def missing_field_def string_of_field_def)
qed

lemma verify_example: "verifyRequestSecret example_environment (example_request t r)"
  by (simp add: verifyRequestSecret_def verifySecret_def example_environment_def example_request_def)

lemma provided_task_blank: "provided_task (Val ''   '') = None"
  by (simp add: provided_task_def trim_def isWhiteSpace_def code_def)

lemma provided_task_hello_world: "provided_task (Val ''hello-world'') = Some ''hello-world''"
  by (simp add: provided_task_def trim_def isWhiteSpace_def code_def)

lemma provided_task_Hello_World: "provided_task (Val ''Hello World!'') = Some ''Hello World!''"
  by (simp add: provided_task_def trim_def isWhiteSpace_def code_def)

text \<open>
  C6, as stated, fails: the task name of three spaces is not empty, yet a round-1 request
  with it is refused and no mapping is stored, because the test is on the trimmed name.
\<close>

theorem determineRepoName_counterexample:
  "''   '' \<noteq> [] \<and>
   determineRepoName (example_request ''   '' 1) new_TaskHandler
     = (Inl (Error ''Task name is required for Round 1'' None), new_TaskHandler) \<and>
   repoTracking (snd (determineRepoName (example_request ''   '' 1) new_TaskHandler))
     (Val ''student@example.com'') = None"
  using provided_task_blank
  by (simp add: determineRepoName_def example_request_def new_TaskHandler_def)

text \<open>
  C6, amended. A task name counts as given when it is a string that is not empty after
  trimming white space (\<open>provided_task\<close>). A round-1 request without such a name fails with
  "Task name is required for Round 1", the state is unchanged and \<open>handleTask\<close> starts no
  background work, so no network call is made. A round-1 request with such a name resolves
  to it and stores the mapping from the requester's email to it. A request of any other
  round resolves to the given name if there is one; otherwise to the name stored for the
  requester's email; and if none is stored it fails with the descriptive error, again with
  the state unchanged and no background work started.
\<close>

theorem determineRepoName_resolution:
  "(round request = Val 1 \<and> provided_task (task request) = None \<longrightarrow>
      determineRepoName request st = (Inl (Error ''Task name is required for Round 1'' None), st) \<and>
      (validateRequest request = Inr () \<and> verifyRequestSecret env request \<longrightarrow>
         handleTask env request st = (Inl (Error ''Task name is required for Round 1'' None), st, None))) \<and>
   (round request = Val 1 \<and> provided_task (task request) = Some t \<longrightarrow>
      determineRepoName request st
        = (Inr t, st\<lparr>repoTracking := (repoTracking st)(email request \<mapsto> t)\<rparr>)) \<and>
   (round request \<noteq> Val 1 \<and> provided_task (task request) = Some t \<longrightarrow>
      determineRepoName request st = (Inr t, st)) \<and>
   (round request \<noteq> Val 1 \<and> provided_task (task request) = None \<and>
    repoTracking st (email request) = Some t \<and> t \<noteq> [] \<longrightarrow>
      determineRepoName request st = (Inr t, st)) \<and>
   (round request \<noteq> Val 1 \<and> provided_task (task request) = None \<and>
    repoTracking st (email request) = None \<longrightarrow>
      determineRepoName request st = (Inl (no_repository_error (email request)), st) \<and>
      (validateRequest request = Inr () \<and> verifyRequestSecret env request \<longrightarrow>
         handleTask env request st = (Inl (no_repository_error (email request)), st, None))) \<and>
   (provided_task (task request) = None \<longleftrightarrow>
      (\<forall>s. task request = Val s \<longrightarrow> trim s = []))"
proof (intro conjI impI)
  show "(provided_task (task request) = None) = (\<forall>s. task request = Val s \<longrightarrow> trim s = [])"
    by (cases "task request") (auto simp: provided_task_def trim_def)
qed (auto simp: determineRepoName_def handleTask_def)


theorem determineRepoName_resolution_witness:
  "determineRepoName (example_request ''   '' 1) new_TaskHandler
     = (Inl (Error ''Task name is required for Round 1'' None), new_TaskHandler) \<and>
   handleTask example_environment (example_request ''   '' 1) new_TaskHandler
     = (Inl (Error ''Task name is required for Round 1'' None), new_TaskHandler, None) \<and>
   determineRepoName (example_request ''hello-world'' 1) new_TaskHandler
     = (Inr ''hello-world'',
        new_TaskHandler\<lparr>repoTracking := [Val ''student@example.com'' \<mapsto> ''hello-world'']\<rparr>) \<and>
   determineRepoName (example_request ''hello-world'' 2) new_TaskHandler
     = (Inr ''hello-world'', new_TaskHandler) \<and>
   determineRepoName (example_request ''   '' 2)
       (new_TaskHandler\<lparr>repoTracking := [Val ''student@example.com'' \<mapsto> ''hello-world'']\<rparr>)
     = (Inr ''hello-world'',
        new_TaskHandler\<lparr>repoTracking := [Val ''student@example.com'' \<mapsto> ''hello-world'']\<rparr>) \<and>
   determineRepoName (example_request ''   '' 2) new_TaskHandler
     = (Inl (no_repository_error (Val ''student@example.com'')), new_TaskHandler)"
proof -
  have f: "round (example_request t r) = Val r" "task (example_request t r) = Val t"
          "email (example_request t r) = Val ''student@example.com''" for t r
    by (simp_all add: example_request_def)
  have n: "repoTracking new_TaskHandler = Map.empty"
    by (simp add: new_TaskHandler_def)
  note a = determineRepoName_resolution[where request="example_request ''   '' 1" and t="''x''"
             and st=new_TaskHandler and env=example_environment]
  note b = determineRepoName_resolution[where request="example_request ''hello-world'' 1"
             and t="''hello-world''" and st=new_TaskHandler and env=example_environment]
  note c = determineRepoName_resolution[where request="example_request ''hello-world'' 2"
             and t="''hello-world''" and st=new_TaskHandler and env=example_environment]
  note d = determineRepoName_resolution[where request="example_request ''   '' 2"
             and t="''hello-world''"
             and st="new_TaskHandler\<lparr>repoTracking := [Val ''student@example.com'' \<mapsto> ''hello-world'']\<rparr>"
             and env=example_environment]
  note e = determineRepoName_resolution[where request="example_request ''   '' 2" and t="''x''"
             and st=new_TaskHandler and env=example_environment]
  show ?thesis
    using a b c d e provided_task_blank provided_task_hello_world
      validate_example[of 1 "''   ''"] verify_example[of "''   ''" 1]
    by (simp add: f n)
qed

text \<open>\<open>determineRepoName\<close> never touches \<open>processedTasks\<close>.\<close>

lemma determineRepoName_processedTasks:
  "processedTasks (snd (determineRepoName request st)) = processedTasks st"
  by (simp add: determineRepoName_def split: option.splits)

text \<open>
  C3. Two requests that pass validation and authentication and resolve to the same
  repository name and round: the first, arriving when the key is not tracked, is answered
  "accepted", is marked "processing" and starts one background task; the second, arriving
  in any state where the key is still tracked as "processing", is answered "duplicate",
  starts no background task (so no publish or update), and leaves \<open>processedTasks\<close> as it is.
\<close>

theorem handleTask_duplicate:
  assumes "validateRequest r1 = Inr ()" and "verifyRequestSecret env r1"
    and "validateRequest r2 = Inr ()" and "verifyRequestSecret env r2"
    and "determineRepoName r1 st0 = (Inr repoName, st0')"
    and "processedTasks st0 (taskKey repoName (round r1)) = None"
    and "determineRepoName r2 st = (Inr repoName, st')"
    and "round r2 = round r1"
    and "processedTasks st (taskKey repoName (round r1)) = Some Processing"
  shows "fst (handleTask env r1 st0) = Inr Accepted \<and>
         processedTasks (fst (snd (handleTask env r1 st0))) (taskKey repoName (round r1))
           = Some Processing \<and>
         snd (snd (handleTask env r1 st0)) = Some (r1, repoName) \<and>
         handleTask env r2 st = (Inr Duplicate, st', None) \<and>
         processedTasks st' = processedTasks st"
proof -
  have p0: "processedTasks st0' = processedTasks st0"
    using determineRepoName_processedTasks[of r1 st0] assms(5) by simp
  have p: "processedTasks st' = processedTasks st"
    using determineRepoName_processedTasks[of r2 st] assms(7) by simp
  have first: "handleTask env r1 st0 =
      (Inr Accepted,
       st0'\<lparr>processedTasks := (processedTasks st0')(taskKey repoName (round r1) \<mapsto> Processing)\<rparr>,
       Some (r1, repoName))"
    using assms(1,2,5,6) p0 by (simp add: handleTask_def)
  have second: "handleTask env r2 st = (Inr Duplicate, st', None)"
    using assms(3,4,7,8,9) p by (simp add: handleTask_def)
  show ?thesis
    using first second p by simp
qed


lemma taskKey_round_1: "taskKey n (Val 1) = n @ ''-1''"
proof -
  have "show_int 1 = ''1''" by code_simp
  then show ?thesis by (simp add: taskKey_def string_of_round_def)
qed

lemma example_fields:
  "round (example_request t r) = Val r" "task (example_request t r) = Val t"
  "email (example_request t r) = Val ''student@example.com''"
  by (simp_all add: example_request_def)

lemma handleTask_first_Hello_World:
  "handleTask example_environment (example_request ''Hello World!'' 1) new_TaskHandler
     = (Inr Accepted,
        \<lparr>processedTasks = [''Hello World!-1'' \<mapsto> Processing],
         repoTracking = [Val ''student@example.com'' \<mapsto> ''Hello World!'']\<rparr>,
        Some (example_request ''Hello World!'' 1, ''Hello World!''))"
  using validate_example[of 1 "''Hello World!''"] verify_example[of "''Hello World!''" 1]
    provided_task_Hello_World
  by (simp add: handleTask_def determineRepoName_def example_fields new_TaskHandler_def
      taskKey_round_1)

theorem handleTask_duplicate_witness:
  "fst (handleTask example_environment (example_request ''hello-world'' 1) new_TaskHandler)
     = Inr Accepted \<and>
   fst (handleTask example_environment (example_request ''hello-world'' 1)
          \<lparr>processedTasks = [''hello-world-1'' \<mapsto> Processing],
           repoTracking = [Val ''student@example.com'' \<mapsto> ''hello-world'']\<rparr>)
     = Inr Duplicate \<and>
   snd (snd (handleTask example_environment (example_request ''hello-world'' 1)
          \<lparr>processedTasks = [''hello-world-1'' \<mapsto> Processing],
           repoTracking = [Val ''student@example.com'' \<mapsto> ''hello-world'']\<rparr>))
     = None"
proof -
  let ?r = "example_request ''hello-world'' 1"
  let ?st = "\<lparr>processedTasks = [''hello-world-1'' \<mapsto> Processing],
             repoTracking = [Val ''student@example.com'' \<mapsto> ''hello-world'']\<rparr>"
  have v: "validateRequest ?r = Inr ()"
    using validate_example[of 1 "''hello-world''"] by simp
  have s: "verifyRequestSecret example_environment ?r"
    by (rule verify_example)
  have d0: "determineRepoName ?r new_TaskHandler
            = (Inr ''hello-world'', snd (determineRepoName ?r new_TaskHandler))"
    using provided_task_hello_world by (simp add: determineRepoName_def example_fields)
  have d1: "determineRepoName ?r ?st = (Inr ''hello-world'', snd (determineRepoName ?r ?st))"
    using provided_task_hello_world by (simp add: determineRepoName_def example_fields)
  have k0: "processedTasks new_TaskHandler (taskKey ''hello-world'' (round ?r)) = None"
    by (simp add: new_TaskHandler_def)
  have k1: "processedTasks ?st (taskKey ''hello-world'' (round ?r)) = Some Processing"
    by (simp add: example_fields taskKey_round_1)
  show ?thesis
    using handleTask_duplicate[OF v s v s d0 k0 d1 refl k1] by simp
qed

text \<open>
  C9. The task key and the tracked name are built from the task string as given; the
  repository name is canonicalised only inside \<open>createAndDeployRepo\<close>. The round-1 requests
  for "Hello World!" and for "hello-world" get different keys, so the second is accepted, not
  reported as a duplicate, and both start a \<open>createAndDeployRepo\<close> call that works on the
  remote repository "hello-world".
\<close>

theorem handleTask_raw_task_key:
  "sanitizeRepoName ''Hello World!'' = sanitizeRepoName ''hello-world'' \<and>
   taskKey ''Hello World!'' (Val 1) \<noteq> taskKey ''hello-world'' (Val 1) \<and>
   handleTask example_environment (example_request ''Hello World!'' 1) new_TaskHandler
     = (Inr Accepted,
        \<lparr>processedTasks = [''Hello World!-1'' \<mapsto> Processing],
         repoTracking = [Val ''student@example.com'' \<mapsto> ''Hello World!'']\<rparr>,
        Some (example_request ''Hello World!'' 1, ''Hello World!'')) \<and>
   handleTask example_environment (example_request ''hello-world'' 1)
       \<lparr>processedTasks = [''Hello World!-1'' \<mapsto> Processing],
        repoTracking = [Val ''student@example.com'' \<mapsto> ''Hello World!'']\<rparr>
     = (Inr Accepted,
        \<lparr>processedTasks = [''Hello World!-1'' \<mapsto> Processing, ''hello-world-1'' \<mapsto> Processing],
         repoTracking = [Val ''student@example.com'' \<mapsto> ''hello-world'']\<rparr>,
        Some (example_request ''hello-world'' 1, ''hello-world'')) \<and>
   processTaskAsync_call (example_request ''Hello World!'' 1) ''Hello World!''
     = Inr (CreateAndDeployRepo ''Hello World!'') \<and>
   processTaskAsync_call (example_request ''hello-world'' 1) ''hello-world''
     = Inr (CreateAndDeployRepo ''hello-world'') \<and>
   remote_repository (CreateAndDeployRepo ''Hello World!'') = ''hello-world'' \<and>
   remote_repository (CreateAndDeployRepo ''hello-world'') = ''hello-world''"
proof -
  have c1: "sanitizeRepoName ''Hello World!'' = ''hello-world''" by code_simp
  have c2: "sanitizeRepoName ''hello-world'' = ''hello-world''" by code_simp
  have second: "handleTask example_environment (example_request ''hello-world'' 1)
       \<lparr>processedTasks = [''Hello World!-1'' \<mapsto> Processing],
        repoTracking = [Val ''student@example.com'' \<mapsto> ''Hello World!'']\<rparr>
     = (Inr Accepted,
        \<lparr>processedTasks = [''Hello World!-1'' \<mapsto> Processing, ''hello-world-1'' \<mapsto> Processing],
         repoTracking = [Val ''student@example.com'' \<mapsto> ''hello-world'']\<rparr>,
        Some (example_request ''hello-world'' 1, ''hello-world''))"
    using validate_example[of 1 "''hello-world''"] verify_example[of "''hello-world''" 1]
      provided_task_hello_world
    by (simp add: handleTask_def determineRepoName_def example_fields taskKey_round_1)
  show ?thesis
    using c1 c2 second handleTask_first_Hello_World
    by (simp add: taskKey_round_1 processTaskAsync_call_def example_fields)
qed

section \<open>Properties of updateRepo\<close>







lemma tracked_writes_step:
  "tracked_writes limit base t ((name, content) # files) =
     (case resolve_write limit base t name of
        Inr (Tracked q) \<Rightarrow> [(q, Regular content)]
      | _ \<Rightarrow> []) @ tracked_writes limit base t files"
  by (simp split: sum.splits target.splits)
















text \<open>A name that \<open>path.join\<close> normalises: \<open>./README.md\<close> is written to \<open>README.md\<close>.\<close>

lemma updateRepo_dot_slash:
  "remote_files (fst (snd (updateRepo example_config example_update_env ''hello-world''
      [(''./README.md'', ''# two'')] example_world))) [''README.md'']
     = Some (Regular ''# two'')"
  by code_simp

end
